theory Spec2Isabelle
  imports Complex_Main
begin

section \<open>JavaScript values\<close>

text \<open>
  A JavaScript number is a double. The finite doubles are rationals, and the results
  of the arithmetic operators are rounded to the nearest double, ties to even
  (\<open>fl\<close>). NaN is a value of its own. The two infinities and the sign of zero are not
  represented: the routes below never divide by zero, and a query parameter of
  2 ^ 1024 or more, an infinity in JavaScript, is outside the model.
\<close>

datatype number = NaN | Num rat

fun binary_digits :: "nat \<Rightarrow> nat" where
  "binary_digits n = (if n = 0 then 0 else Suc (binary_digits (n div 2)))"

declare binary_digits.simps [simp del]

text \<open>For x > 0, the exponent e with 2 ^ e \<le> x < 2 ^ (e + 1).\<close>

definition ilog2 :: "rat \<Rightarrow> int" where
  "ilog2 x =
     (if 1 \<le> x then int (binary_digits (nat \<lfloor>x\<rfloor>)) - 1
      else - int (binary_digits (nat \<lceil>1 / x\<rceil> - 1)))"

definition pow2 :: "int \<Rightarrow> rat" where
  "pow2 k = (if 0 \<le> k then 2 ^ nat k else 1 / 2 ^ nat (- k))"

definition round_even :: "rat \<Rightarrow> int" where
  "round_even m =
     (let f = \<lfloor>m\<rfloor>; r = m - of_int f
      in if r < 1 / 2 then f else if 1 / 2 < r then f + 1
         else if even f then f else f + 1)"

text \<open>
  Rounding to a double: 53 significant bits, with the least exponent -1022 of the
  normal range (below it the spacing stays 2 ^ -1074).
\<close>

definition fl :: "rat \<Rightarrow> rat" where
  "fl x =
     (if x = 0 then 0
      else let a = \<bar>x\<bar>; e = max (ilog2 a) (- 1022); q = pow2 (e - 52)
           in sgn x * of_int (round_even (a / q)) * q)"

fun num_sub :: "number \<Rightarrow> number \<Rightarrow> number" where
  "num_sub (Num a) (Num b) = Num (fl (a - b))"
| "num_sub _ _ = NaN"

fun num_mul :: "number \<Rightarrow> number \<Rightarrow> number" where
  "num_mul (Num a) (Num b) = Num (fl (a * b))"
| "num_mul _ _ = NaN"

text \<open>A zero divisor gives an infinity (or NaN) in JavaScript; the callers exclude it.\<close>

fun num_div :: "number \<Rightarrow> number \<Rightarrow> number" where
  "num_div (Num a) (Num b) = (if b = 0 then NaN else Num (fl (a / b)))"
| "num_div _ _ = NaN"

text \<open>Comparisons with NaN are false.\<close>

fun num_lt :: "number \<Rightarrow> number \<Rightarrow> bool" where
  "num_lt (Num a) (Num b) = (a < b)"
| "num_lt _ _ = False"

fun num_gt :: "number \<Rightarrow> number \<Rightarrow> bool" where
  "num_gt (Num a) (Num b) = (b < a)"
| "num_gt _ _ = False"

text \<open>Truthiness of a number (0 and NaN are falsy) and of a string or null.\<close>

fun truthy :: "number \<Rightarrow> bool" where
  "truthy NaN = False"
| "truthy (Num a) = (a \<noteq> 0)"

fun truthy_str :: "string option \<Rightarrow> bool" where
  "truthy_str None = False"
| "truthy_str (Some s) = (s \<noteq> [])"

text \<open>\<open>x || undefined\<close> and \<open>x || d\<close> on the result of \<open>searchParams.get\<close>.\<close>

fun or_undefined :: "string option \<Rightarrow> string option" where
  "or_undefined None = None"
| "or_undefined (Some s) = (if s = [] then None else Some s)"

fun or_default :: "string option \<Rightarrow> string \<Rightarrow> string" where
  "or_default None d = d"
| "or_default (Some s) d = (if s = [] then d else s)"

fun Math_ceil :: "number \<Rightarrow> number" where
  "Math_ceil NaN = NaN"
| "Math_ceil (Num a) = Num (of_int \<lceil>a\<rceil>)"

text \<open>Math.round takes the nearest integer, the larger one at a tie.\<close>

fun Math_round :: "number \<Rightarrow> number" where
  "Math_round NaN = NaN"
| "Math_round (Num a) = Num (of_int \<lfloor>a + 1 / 2\<rfloor>)"

text \<open>White space of the byte range, as String.prototype.trim and parseInt skip it.\<close>

definition isWhiteSpace :: "char \<Rightarrow> bool" where
  "isWhiteSpace c = (c \<in> set [CHR 0x09, CHR 0x0A, CHR 0x0B, CHR 0x0C, CHR 0x0D, CHR 0x20])"

definition trim :: "string \<Rightarrow> string" where
  "trim s = rev (dropWhile isWhiteSpace (rev (dropWhile isWhiteSpace s)))"

definition digitVal :: "char \<Rightarrow> nat option" where
  "digitVal c =
     (let n = (of_char c :: nat)
      in if 48 \<le> n \<and> n \<le> 57 then Some (n - 48)
         else if 97 \<le> n \<and> n \<le> 122 then Some (n - 87)
         else if 65 \<le> n \<and> n \<le> 90 then Some (n - 55)
         else None)"

definition isDigitIn :: "nat \<Rightarrow> char \<Rightarrow> bool" where
  "isDigitIn radix c = (case digitVal c of None \<Rightarrow> False | Some v \<Rightarrow> v < radix)"

definition digitsValue :: "nat \<Rightarrow> string \<Rightarrow> nat" where
  "digitsValue radix cs =
     foldl (\<lambda>a c. a * radix + (case digitVal c of None \<Rightarrow> 0 | Some v \<Rightarrow> v)) 0 cs"

text \<open>
  parseInt without a radix argument: leading white space, a sign, the prefix 0x or 0X
  for radix 16, then the longest run of digits; NaN when there is none.
\<close>

definition parseInt :: "string \<Rightarrow> number" where
  "parseInt s =
     (let s1 = dropWhile isWhiteSpace s;
          neg = (case s1 of [] \<Rightarrow> False | c # _ \<Rightarrow> c = CHR ''-'');
          s2 = (case s1 of [] \<Rightarrow> [] | c # r \<Rightarrow> if c = CHR ''-'' \<or> c = CHR ''+'' then r else s1);
          hex = (case s2 of
                   c # d # _ \<Rightarrow> c = CHR ''0'' \<and> (d = CHR ''x'' \<or> d = CHR ''X'')
                 | _ \<Rightarrow> False);
          radix = (if hex then 16 else 10);
          s3 = (if hex then drop 2 s2 else s2);
          ds = takeWhile (isDigitIn radix) s3
      in if ds = [] then NaN
         else Num (fl ((if neg then - 1 else 1) * of_nat (digitsValue radix ds))))"

section \<open>Documents and collections\<close>

text \<open>
  The application stores issues and votes in two MongoDB collections (models/Issue.ts,
  which also holds the Vote model). An ObjectId is modelled by the number it encodes,
  a Date by its milliseconds since the epoch.
\<close>

type_synonym oid = nat
type_synonym date = nat

text \<open>AuthUser of the identity provider (lib/auth.ts), reduced to what the routes read.\<close>

record auth_user =
  user_id :: oid
  role :: string

text \<open>
  IIssue. \<open>location.type\<close> is always the string Point and is left out; \<open>coordinates\<close> is
  the array [longitude, latitude]. The embedded comments are never written by a route
  of the repository and are left out as well.
\<close>

record issue =
  issue_id :: oid
  title :: string
  description :: string
  category :: string
  status :: string
  priority :: string
  coordinates :: "rat list"
  address :: string
  images :: "string list"
  reportedBy :: oid
  assignedTo :: "oid option"
  votes :: int
  votedBy :: "oid list"
  resolvedAt :: "date option"
  createdAt :: date
  updatedAt :: date

text \<open>
  IVote. The Vote collection carries the unique compound index
  \<open>{userId: 1, issueId: 1}\<close>, so it holds at most one document for a pair: the
  collection is the set of its (userId, issueId) pairs.
\<close>

record vote =
  userId :: oid
  issueId :: oid

record db =
  issues :: "issue list"
  votes_coll :: "vote set"

text \<open>The uniform envelope ApiResponse, with the HTTP status of the reply.\<close>

record 'a response =
  http_status :: nat
  success :: bool
  message :: string
  data :: "'a option"

datatype mongo_error = DuplicateKey | ValidationError

fun code :: "mongo_error \<Rightarrow> nat option" where
  "code DuplicateKey = Some 11000"
| "code ValidationError = None"

section \<open>The Vote model\<close>

definition findOne :: "oid \<Rightarrow> oid \<Rightarrow> vote set \<Rightarrow> vote option" where
  "findOne u i vs =
     (if \<lparr>userId = u, issueId = i\<rparr> \<in> vs then Some \<lparr>userId = u, issueId = i\<rparr> else None)"

definition deleteOne :: "oid \<Rightarrow> oid \<Rightarrow> vote set \<Rightarrow> vote set" where
  "deleteOne u i vs = vs - {\<lparr>userId = u, issueId = i\<rparr>}"

text \<open>The insert fails on the unique index when the pair is already stored.\<close>

definition create_vote :: "oid \<Rightarrow> oid \<Rightarrow> vote set \<Rightarrow> mongo_error + (vote \<times> vote set)" where
  "create_vote u i vs =
     (if \<lparr>userId = u, issueId = i\<rparr> \<in> vs then Inl DuplicateKey
      else Inr (\<lparr>userId = u, issueId = i\<rparr>, insert \<lparr>userId = u, issueId = i\<rparr> vs))"

datatype action = Added | Removed

record toggle_result =
  action :: action
  tr_vote :: "vote option"

text \<open>
  VoteSchema.statics.toggleVote. The read and the insert are two separate database
  calls; \<open>race\<close> is what other requests write to the Vote collection between them
  (\<open>no_race\<close> when the request runs alone). Only then can the insert hit the unique
  index.
\<close>

definition no_race :: "vote set \<Rightarrow> vote set" where
  "no_race vs = vs"

definition toggleVote ::
  "(vote set \<Rightarrow> vote set) \<Rightarrow> oid \<Rightarrow> oid \<Rightarrow> vote set \<Rightarrow> mongo_error + (toggle_result \<times> vote set)" where
  "toggleVote race u i vs =
     (case findOne u i vs of
        Some existingVote \<Rightarrow>
          Inr (\<lparr>action = Removed, tr_vote = Some existingVote\<rparr>, deleteOne u i vs)
      | None \<Rightarrow>
          (case create_vote u i (race vs) of
             Inr (newVote, vs') \<Rightarrow> Inr (\<lparr>action = Added, tr_vote = Some newVote\<rparr>, vs')
           | Inl error \<Rightarrow>
               if code error = Some 11000
               then Inr (\<lparr>action = Removed, tr_vote = findOne u i (race vs)\<rparr>,
                         deleteOne u i (race vs))
               else Inl error))"

section \<open>The Issue collection\<close>

definition findById :: "oid \<Rightarrow> issue list \<Rightarrow> issue option" where
  "findById i ds = find (\<lambda>d. issue_id d = i) ds"

text \<open>An update by id changes one document, the first that matches.\<close>

fun findByIdAndUpdate :: "oid \<Rightarrow> (issue \<Rightarrow> issue) \<Rightarrow> issue list \<Rightarrow> issue list" where
  "findByIdAndUpdate i f [] = []"
| "findByIdAndUpdate i f (d # ds) =
     (if issue_id d = i then f d # ds else d # findByIdAndUpdate i f ds)"

fun findByIdAndDelete :: "oid \<Rightarrow> issue list \<Rightarrow> issue list" where
  "findByIdAndDelete i [] = []"
| "findByIdAndDelete i (d # ds) =
     (if issue_id d = i then ds else d # findByIdAndDelete i ds)"

text \<open>The update operators \<open>$addToSet\<close> and \<open>$pull\<close> on an array field.\<close>

definition addToSet :: "oid \<Rightarrow> oid list \<Rightarrow> oid list" where
  "addToSet u us = (if u \<in> set us then us else us @ [u])"

definition pull :: "oid \<Rightarrow> oid list \<Rightarrow> oid list" where
  "pull u us = filter (\<lambda>x. x \<noteq> u) us"

section \<open>POST /api/issues/[id]/vote\<close>

record vote_data =
  vd_issueId :: oid
  vd_votes :: int
  vd_hasVoted :: bool
  vd_issue :: issue

definition reply :: "nat \<Rightarrow> bool \<Rightarrow> string \<Rightarrow> 'a option \<Rightarrow> 'a response" where
  "reply st ok msg d = \<lparr>http_status = st, success = ok, message = msg, data = d\<rparr>"

text \<open>
  The route handler. \<open>auth\<close> is what requireAuth finds (None: it throws
  Authentication required), \<open>idp\<close> the path parameter (None: it is not a valid
  ObjectId), \<open>now\<close> the clock, read by the timestamps plugin on every update.
\<close>

definition POST_vote ::
  "(vote set \<Rightarrow> vote set) \<Rightarrow> date \<Rightarrow> auth_user option \<Rightarrow> oid option \<Rightarrow> db
     \<Rightarrow> vote_data response \<times> db" where
  "POST_vote race now auth idp s =
     (case auth of
        None \<Rightarrow> (reply 401 False ''Authentication required'' None, s)
      | Some user \<Rightarrow>
     (case idp of
        None \<Rightarrow> (reply 400 False ''Invalid issue ID'' None, s)
      | Some i \<Rightarrow>
     (case findById i (issues s) of
        None \<Rightarrow> (reply 404 False ''Issue not found'' None, s)
      | Some found \<Rightarrow>
     (case toggleVote race (user_id user) i (votes_coll s) of
        Inl error \<Rightarrow> (reply 500 False ''Failed to toggle vote'' None, s)
      | Inr (voteResult, vs') \<Rightarrow>
          let ds' =
                (if action voteResult = Added
                 then findByIdAndUpdate i
                        (\<lambda>d. d\<lparr>votes := votes d + 1,
                                votedBy := addToSet (user_id user) (votedBy d),
                                updatedAt := now\<rparr>) (issues s)
                 else findByIdAndUpdate i
                        (\<lambda>d. d\<lparr>votes := votes d - 1,
                                votedBy := pull (user_id user) (votedBy d),
                                updatedAt := now\<rparr>) (issues s));
              s' = \<lparr>issues = ds', votes_coll = vs'\<rparr>
          in (case findById i ds' of
                None \<Rightarrow> (reply 500 False ''Failed to toggle vote'' None, s')
              | Some updatedIssue \<Rightarrow>
                  (reply 200 True
                     (''Vote '' @ (if user_id user \<in> set (votedBy updatedIssue)
                                   then ''added'' else ''removed'') @ '' successfully'')
                     (Some \<lparr>vd_issueId = i,
                            vd_votes = votes updatedIssue,
                            vd_hasVoted = (user_id user \<in> set (votedBy updatedIssue)),
                            vd_issue = updatedIssue\<rparr>),
                   s'))))))"

section \<open>The Issue schema\<close>

definition category_values :: "string list" where
  "category_values =
     [''infrastructure'', ''sanitation'', ''safety'', ''environment'', ''transportation'',
      ''other'']"

definition status_values :: "string list" where
  "status_values = [''pending'', ''in-progress'', ''resolved'']"

definition priority_values :: "string list" where
  "priority_values = [''low'', ''medium'', ''high'', ''urgent'']"

text \<open>The validator of \<open>location.coordinates\<close>.\<close>

definition coordinates_validator :: "rat list \<Rightarrow> bool" where
  "coordinates_validator coords =
     (case coords of
        [lng, lat] \<Rightarrow> - 180 \<le> lng \<and> lng \<le> 180 \<and> - 90 \<le> lat \<and> lat \<le> 90
      | _ \<Rightarrow> False)"

text \<open>
  The validator of an image URL, the regular expression
  \<^verbatim>\<open>/^https?:\/\/.+\.(jpg|jpeg|png|webp|gif)$/i\<close>: the dot matches any character but a
  line terminator.
\<close>

definition lower :: "char \<Rightarrow> char" where
  "lower c = (let n = (of_char c :: nat) in if 65 \<le> n \<and> n \<le> 90 then char_of (n + 32) else c)"

definition starts_with :: "string \<Rightarrow> string \<Rightarrow> bool" where
  "starts_with s p = (take (length p) s = p)"

definition ends_with :: "string \<Rightarrow> string \<Rightarrow> bool" where
  "ends_with s e = (length e \<le> length s \<and> drop (length s - length e) s = e)"

definition lineTerminator :: "char \<Rightarrow> bool" where
  "lineTerminator c = (c = CHR 0x0A \<or> c = CHR 0x0D)"

definition image_tail :: "string \<Rightarrow> bool" where
  "image_tail r =
     list_ex
       (\<lambda>ext. ends_with r (CHR ''.'' # ext) \<and> length ext + 1 < length r
            \<and> \<not> list_ex lineTerminator (take (length r - (length ext + 1)) r))
       [''jpg'', ''jpeg'', ''png'', ''webp'', ''gif'']"

definition image_validator :: "string \<Rightarrow> bool" where
  "image_validator url =
     (let l = map lower url
      in (starts_with l ''http://'' \<and> image_tail (drop 7 l))
         \<or> (starts_with l ''https://'' \<and> image_tail (drop 8 l)))"

text \<open>
  Validation before a save: required paths, lengths, enums and custom validators of
  IssueSchema. False stands for the ValidationError that \<open>save\<close> throws.
\<close>

definition validate_issue :: "issue \<Rightarrow> bool" where
  "validate_issue d =
     (title d \<noteq> [] \<and> 5 \<le> length (title d) \<and> length (title d) \<le> 100
      \<and> description d \<noteq> [] \<and> 10 \<le> length (description d) \<and> length (description d) \<le> 1000
      \<and> category d \<noteq> [] \<and> category d \<in> set category_values
      \<and> status d \<in> set status_values
      \<and> priority d \<in> set priority_values
      \<and> coordinates_validator (coordinates d)
      \<and> address d \<noteq> [] \<and> length (address d) \<le> 200
      \<and> list_all image_validator (images d)
      \<and> 0 \<le> votes d)"

text \<open>
  IssueSchema.pre('save'). \<open>statusModified\<close> is \<open>this.isModified('status')\<close>: the path
  was set to a value other than the stored one (or the document is new).
\<close>

definition pre_save :: "bool \<Rightarrow> date \<Rightarrow> issue \<Rightarrow> issue" where
  "pre_save statusModified now d =
     (if statusModified
      then (if status d = ''resolved'' \<and> resolvedAt d = None
            then d\<lparr>resolvedAt := Some now\<rparr>
            else if status d \<noteq> ''resolved'' then d\<lparr>resolvedAt := None\<rparr>
            else d)
      else d)"



section \<open>POST /api/issues\<close>

text \<open>
  The JSON body of the request. A field that is absent, null or not of the type the
  handler goes on to use is None; an element of the coordinates array is any JSON
  scalar.
\<close>

datatype jv = JNum rat | JStr string | JBool bool | JNull

record location_in =
  li_coordinates :: "jv list option"

record create_body =
  cb_title :: "string option"
  cb_description :: "string option"
  cb_category :: "string option"
  cb_priority :: "string option"
  cb_location :: "location_in option"
  cb_address :: "string option"
  cb_images :: "string list option"

text \<open>
  The check of the location format: coordinates is an array of two numbers.
\<close>

fun location_format :: "jv list option \<Rightarrow> (rat \<times> rat) option" where
  "location_format (Some [JNum lng, JNum lat]) = Some (lng, lat)"
| "location_format _ = None"

text \<open>
  \<open>new Issue({...})\<close> of the handler; \<open>newId\<close> is the ObjectId the driver generates
  for the document, \<open>now\<close> the time of its timestamps.
\<close>

definition new_issue :: "oid \<Rightarrow> date \<Rightarrow> auth_user \<Rightarrow> create_body \<Rightarrow> rat \<Rightarrow> rat \<Rightarrow> issue" where
  "new_issue newId now user body lng lat =
     \<lparr>issue_id = newId,
      title = trim (or_default (cb_title body) []),
      description = trim (or_default (cb_description body) []),
      category = or_default (cb_category body) [],
      status = ''pending'',
      priority = (case cb_priority body of None \<Rightarrow> ''medium'' | Some p \<Rightarrow> p),
      coordinates = [lng, lat],
      address = trim (or_default (cb_address body) []),
      images = (case cb_images body of None \<Rightarrow> [] | Some us \<Rightarrow> us),
      reportedBy = user_id user,
      assignedTo = None,
      votes = 0,
      votedBy = [],
      resolvedAt = None,
      createdAt = now,
      updatedAt = now\<rparr>"

text \<open>The save of a new document validates, runs the pre-save hook and inserts.\<close>

definition POST_issues ::
  "oid \<Rightarrow> date \<Rightarrow> auth_user option \<Rightarrow> create_body \<Rightarrow> db \<Rightarrow> issue response \<times> db" where
  "POST_issues newId now auth body s =
     (case auth of
        None \<Rightarrow> (reply 401 False ''Authentication required'' None, s)
      | Some user \<Rightarrow>
     (case cb_location body of
        None \<Rightarrow>
          (reply 400 False
             ''Title, description, category, location, and address are required'' None, s)
      | Some location \<Rightarrow>
          if \<not> truthy_str (cb_title body) \<or> \<not> truthy_str (cb_description body)
             \<or> \<not> truthy_str (cb_category body) \<or> \<not> truthy_str (cb_address body)
          then (reply 400 False
                  ''Title, description, category, location, and address are required'' None, s)
          else
     (case location_format (li_coordinates location) of
        None \<Rightarrow>
          (reply 400 False
             ''Invalid location format. Expected coordinates array [longitude, latitude]''
             None, s)
      | Some (lng, lat) \<Rightarrow>
          if lng < - 180 \<or> 180 < lng \<or> lat < - 90 \<or> 90 < lat
          then (reply 400 False
                  ''Invalid coordinates. Longitude must be between -180 and 180, latitude between -90 and 90''
                  None, s)
          else if validate_issue (new_issue newId now user body lng lat)
          then (reply 201 True ''Issue created successfully''
                  (Some (pre_save True now (new_issue newId now user body lng lat))),
                s\<lparr>issues := issues s @ [pre_save True now (new_issue newId now user body lng lat)]\<rparr>)
          else (reply 400 False ''Validation error'' None, s))))"

section \<open>PUT and DELETE /api/issues/[id]\<close>

text \<open>
  The JSON body of an update. The handler reads title, description, category,
  priority, status and assignedTo; the three system-managed fields stand for whatever
  else a client sends. For assignedTo, None is an absent field (undefined), Some None
  is null or the empty string, Some (Some a) the id of a user.
\<close>

record update_body =
  ub_title :: "string option"
  ub_description :: "string option"
  ub_category :: "string option"
  ub_priority :: "string option"
  ub_status :: "string option"
  ub_assignedTo :: "oid option option"
  ub_votes :: "int option"
  ub_votedBy :: "oid list option"
  ub_resolvedAt :: "date option"

text \<open>The timestamps plugin on the save of a loaded document that has a modified path.\<close>

definition timestamps :: "date \<Rightarrow> issue \<Rightarrow> issue \<Rightarrow> issue" where
  "timestamps now old d = (if d \<noteq> old then d\<lparr>updatedAt := now\<rparr> else d)"

text \<open>
  \<open>issue.save()\<close> of a loaded document: validation, the pre-save hook, then the write
  of the changed document, with updatedAt set by the timestamps plugin.
\<close>

definition save_issue :: "date \<Rightarrow> issue \<Rightarrow> issue \<Rightarrow> issue list \<Rightarrow> mongo_error + (issue \<times> issue list)" where
  "save_issue now old new ds =
     (if \<not> validate_issue new then Inl ValidationError
      else let saved = timestamps now old (pre_save (status new \<noteq> status old) now new)
           in Inr (saved, findByIdAndUpdate (issue_id old) (\<lambda>_. saved) ds))"

text \<open>The assignments of the handler to the allowed fields of the loaded issue.\<close>

definition apply_updates :: "bool \<Rightarrow> bool \<Rightarrow> update_body \<Rightarrow> issue \<Rightarrow> issue" where
  "apply_updates isOwner isAdmin body found =
     (let d1 = (if truthy_str (ub_title body) \<and> (isOwner \<or> isAdmin)
                then found\<lparr>title := trim (or_default (ub_title body) [])\<rparr> else found);
          d2 = (if truthy_str (ub_description body) \<and> (isOwner \<or> isAdmin)
                then d1\<lparr>description := trim (or_default (ub_description body) [])\<rparr>
                else d1);
          d3 = (if truthy_str (ub_category body) \<and> (isOwner \<or> isAdmin)
                then d2\<lparr>category := or_default (ub_category body) []\<rparr> else d2);
          d4 = (if truthy_str (ub_priority body) \<and> (isOwner \<or> isAdmin)
                then d3\<lparr>priority := or_default (ub_priority body) []\<rparr> else d3);
          d5 = (if truthy_str (ub_status body) \<and> isAdmin
                then d4\<lparr>status := or_default (ub_status body) []\<rparr> else d4)
      in (case ub_assignedTo body of
            None \<Rightarrow> d5
          | Some a \<Rightarrow> if isAdmin then d5\<lparr>assignedTo := a\<rparr> else d5))"

definition PUT_issue ::
  "date \<Rightarrow> auth_user option \<Rightarrow> oid option \<Rightarrow> update_body \<Rightarrow> db \<Rightarrow> issue response \<times> db" where
  "PUT_issue now auth idp body s =
     (case auth of
        None \<Rightarrow> (reply 401 False ''Authentication required'' None, s)
      | Some user \<Rightarrow>
     (case idp of
        None \<Rightarrow> (reply 400 False ''Invalid issue ID'' None, s)
      | Some i \<Rightarrow>
     (case findById i (issues s) of
        None \<Rightarrow> (reply 404 False ''Issue not found'' None, s)
      | Some found \<Rightarrow>
          let isOwner = (reportedBy found = user_id user);
              isAdmin = (role user = ''admin'')
          in if \<not> isOwner \<and> \<not> isAdmin
             then (reply 403 False ''Permission denied'' None, s)
             else if (truthy_str (ub_status body)
                        \<or> (case ub_assignedTo body of Some (Some a) \<Rightarrow> True | _ \<Rightarrow> False))
                     \<and> \<not> isAdmin
             then (reply 403 False ''Only admins can change issue status or assignment'' None, s)
             else
               (case save_issue now found (apply_updates isOwner isAdmin body found) (issues s) of
                  Inl error \<Rightarrow> (reply 400 False ''Validation error'' None, s)
                | Inr (saved, ds') \<Rightarrow>
                    (reply 200 True ''Issue updated successfully'' (Some saved),
                     s\<lparr>issues := ds'\<rparr>)))))"

definition DELETE_issue :: "auth_user option \<Rightarrow> oid option \<Rightarrow> db \<Rightarrow> unit response \<times> db" where
  "DELETE_issue auth idp s =
     (case auth of
        None \<Rightarrow> (reply 401 False ''Authentication required'' None, s)
      | Some user \<Rightarrow>
     (case idp of
        None \<Rightarrow> (reply 400 False ''Invalid issue ID'' None, s)
      | Some i \<Rightarrow>
     (case findById i (issues s) of
        None \<Rightarrow> (reply 404 False ''Issue not found'' None, s)
      | Some found \<Rightarrow>
          let isOwner = (reportedBy found = user_id user);
              isAdmin = (role user = ''admin'')
          in if \<not> isOwner \<and> \<not> isAdmin
             then (reply 403 False ''Permission denied'' None, s)
             else (reply 200 True ''Issue deleted successfully'' None,
                   s\<lparr>issues := findByIdAndDelete i (issues s)\<rparr>))))"

section \<open>GET /api/issues\<close>

text \<open>
  What the handler takes from the JavaScript runtime and from the database server:
  parseFloat, the match of a \<open>$text\<close> search against a document, the match of a
  \<open>$near\<close> query (centre coordinates, \<open>$maxDistance\<close> in metres) against a document, and
  the sort of a result by a named field in a direction (1 or -1).
\<close>

record platform =
  parseFloat :: "string \<Rightarrow> number"
  text_search :: "string \<Rightarrow> issue \<Rightarrow> bool"
  geo_near :: "number list \<Rightarrow> number \<Rightarrow> issue \<Rightarrow> bool"
  sort_docs :: "string \<Rightarrow> int \<Rightarrow> issue list \<Rightarrow> issue list"

record filter_location =
  fl_coordinates :: "number list"
  fl_radius :: number

text \<open>IssueFilters, with the two fields reportedBy and assignedTo that findWithFilters reads.\<close>

record issue_filters =
  if_status :: "string option"
  if_category :: "string option"
  if_priority :: "string option"
  if_reportedBy :: "oid option"
  if_assignedTo :: "oid option"
  if_sortBy :: "string option"
  if_sortOrder :: "string option"
  if_page :: number
  if_limit :: number
  if_search :: "string option"
  if_location :: "filter_location option"

text \<open>A field of the query object that is set only when the filter is truthy.\<close>

fun field_is :: "string option \<Rightarrow> string \<Rightarrow> bool" where
  "field_is None v = True"
| "field_is (Some x) v = (x = [] \<or> v = x)"

text \<open>The query object that findWithFilters builds, as a predicate on a document.\<close>

definition find_query :: "platform \<Rightarrow> issue_filters \<Rightarrow> issue \<Rightarrow> bool" where
  "find_query P f d =
     (field_is (if_status f) (status d)
      \<and> field_is (if_category f) (category d)
      \<and> field_is (if_priority f) (priority d)
      \<and> (case if_reportedBy f of None \<Rightarrow> True | Some u \<Rightarrow> reportedBy d = u)
      \<and> (case if_assignedTo f of None \<Rightarrow> True | Some u \<Rightarrow> assignedTo d = Some u)
      \<and> (case if_search f of None \<Rightarrow> True | Some q \<Rightarrow> q = [] \<or> text_search P q d)
      \<and> (case if_location f of
            None \<Rightarrow> True
          | Some l \<Rightarrow>
              \<not> truthy (fl_radius l)
              \<or> geo_near P (fl_coordinates l) (num_mul (fl_radius l) (Num 1000)) d))"

text \<open>The argument of \<open>skip\<close> and \<open>limit\<close>, a count of documents.\<close>

fun to_count :: "number \<Rightarrow> nat" where
  "to_count NaN = 0"
| "to_count (Num a) = nat \<lfloor>a\<rfloor>"

definition findWithFilters :: "platform \<Rightarrow> issue_filters \<Rightarrow> issue list \<Rightarrow> issue list" where
  "findWithFilters P f ds =
     (let found = filter (find_query P f) ds;
          sorted =
            (if truthy_str (if_sortBy f)
             then sort_docs P (or_default (if_sortBy f) [])
                    (if if_sortOrder f = Some ''asc'' then 1 else - 1) found
             else sort_docs P ''createdAt'' (- 1) found)
      in if truthy (if_page f) \<and> truthy (if_limit f)
         then let skip = num_mul (num_sub (if_page f) (Num 1)) (if_limit f)
              in take (to_count (if_limit f)) (drop (to_count skip) sorted)
         else sorted)"

text \<open>The query string: each parameter as \<open>searchParams.get\<close> returns it.\<close>

record search_params =
  sp_status :: "string option"
  sp_category :: "string option"
  sp_priority :: "string option"
  sp_sortBy :: "string option"
  sp_sortOrder :: "string option"
  sp_page :: "string option"
  sp_limit :: "string option"
  sp_search :: "string option"
  sp_lat :: "string option"
  sp_lng :: "string option"
  sp_radius :: "string option"

definition parse_filters :: "platform \<Rightarrow> search_params \<Rightarrow> issue_filters" where
  "parse_filters P sp =
     \<lparr>if_status = or_undefined (sp_status sp),
      if_category = or_undefined (sp_category sp),
      if_priority = or_undefined (sp_priority sp),
      if_reportedBy = None,
      if_assignedTo = None,
      if_sortBy = Some (or_default (sp_sortBy sp) ''createdAt''),
      if_sortOrder = Some (or_default (sp_sortOrder sp) ''desc''),
      if_page = parseInt (or_default (sp_page sp) ''1''),
      if_limit = parseInt (or_default (sp_limit sp) ''10''),
      if_search = or_undefined (sp_search sp),
      if_location =
        (if truthy_str (sp_lat sp) \<and> truthy_str (sp_lng sp) \<and> truthy_str (sp_radius sp)
         then Some \<lparr>fl_coordinates = [parseFloat P (or_default (sp_lng sp) []),
                                       parseFloat P (or_default (sp_lat sp) [])],
                     fl_radius = parseFloat P (or_default (sp_radius sp) [])\<rparr>
         else None)\<rparr>"

text \<open>The validation of the pagination.\<close>

definition validate_pagination :: "issue_filters \<Rightarrow> issue_filters" where
  "validate_pagination f =
     (let f1 = (if num_lt (if_page f) (Num 1) then f\<lparr>if_page := Num 1\<rparr> else f)
      in if num_lt (if_limit f1) (Num 1) \<or> num_gt (if_limit f1) (Num 50)
         then f1\<lparr>if_limit := Num 10\<rparr> else f1)"

text \<open>The query object of the count.\<close>

definition countQuery :: "platform \<Rightarrow> issue_filters \<Rightarrow> issue \<Rightarrow> bool" where
  "countQuery P f d =
     (field_is (if_status f) (status d)
      \<and> field_is (if_category f) (category d)
      \<and> field_is (if_priority f) (priority d)
      \<and> (case if_search f of None \<Rightarrow> True | Some q \<Rightarrow> q = [] \<or> text_search P q d))"

definition countDocuments :: "(issue \<Rightarrow> bool) \<Rightarrow> issue list \<Rightarrow> number" where
  "countDocuments q ds = Num (of_nat (length (filter q ds)))"

record page_meta =
  currentPage :: number
  totalPages :: number
  totalItems :: number
  itemsPerPage :: number
  hasNextPage :: bool
  hasPrevPage :: bool

record paginated =
  pg_data :: "issue list"
  pg_meta :: page_meta

definition GET_issues :: "platform \<Rightarrow> search_params \<Rightarrow> db \<Rightarrow> paginated response" where
  "GET_issues P sp s =
     (let filters = validate_pagination (parse_filters P sp);
          total = countDocuments (countQuery P filters) (issues s);
          pages = Math_ceil (num_div total (if_limit filters));
          found = findWithFilters P filters (issues s)
      in reply 200 True ''Issues retrieved successfully''
           (Some \<lparr>pg_data = found,
                  pg_meta = \<lparr>currentPage = if_page filters,
                             totalPages = pages,
                             totalItems = total,
                             itemsPerPage = if_limit filters,
                             hasNextPage = num_lt (if_page filters) pages,
                             hasPrevPage = num_gt (if_page filters) (Num 1)\<rparr>\<rparr>))"

section \<open>GET /api/admin/stats\<close>








section \<open>Runs of the application\<close>

text \<open>
  The state-changing requests, handled one after the other. The id that the driver
  generates for a new document has not been used before: no stored issue has it and
  no vote refers to it.
\<close>

datatype request =
    Create oid date "auth_user option" create_body
  | Vote date "auth_user option" "oid option"
  | Update date "auth_user option" "oid option" update_body
  | Delete "auth_user option" "oid option"

fun step :: "request \<Rightarrow> db \<Rightarrow> db" where
  "step (Create newId now auth body) s = snd (POST_issues newId now auth body s)"
| "step (Vote now auth idp) s = snd (POST_vote no_race now auth idp s)"
| "step (Update now auth idp body) s = snd (PUT_issue now auth idp body s)"
| "step (Delete auth idp) s = snd (DELETE_issue auth idp s)"

fun run :: "request list \<Rightarrow> db \<Rightarrow> db" where
  "run [] s = s"
| "run (r # rs) s = run rs (step r s)"

definition fresh_id :: "oid \<Rightarrow> db \<Rightarrow> bool" where
  "fresh_id i s = (i \<notin> issue_id ` set (issues s) \<and> i \<notin> issueId ` votes_coll s)"

fun ids_fresh :: "request list \<Rightarrow> db \<Rightarrow> bool" where
  "ids_fresh [] s = True"
| "ids_fresh (Create newId now auth body # rs) s =
     (fresh_id newId s \<and> ids_fresh rs (step (Create newId now auth body) s))"
| "ids_fresh (r # rs) s = ids_fresh rs (step r s)"

definition empty_db :: db where
  "empty_db = \<lparr>issues = [], votes_coll = {}\<rparr>"

section \<open>Example data\<close>

definition sample_issue :: "oid \<Rightarrow> string \<Rightarrow> issue" where
  "sample_issue i st =
     \<lparr>issue_id = i, title = ''Broken street light'',
      description = ''The light at the corner is out'', category = ''infrastructure'',
      status = st, priority = ''medium'', coordinates = [10, 20],
      address = ''Main street 1'', images = [], reportedBy = 7, assignedTo = None,
      votes = 0, votedBy = [], resolvedAt = (if st = ''resolved'' then Some 50 else None),
      createdAt = 10, updatedAt = 10\<rparr>"

definition alice :: auth_user where
  "alice = \<lparr>user_id = 7, role = ''user''\<rparr>"

definition root :: auth_user where
  "root = \<lparr>user_id = 1, role = ''admin''\<rparr>"

definition one_issue_db :: db where
  "one_issue_db = \<lparr>issues = [sample_issue 5 ''pending''], votes_coll = {}\<rparr>"

definition sample_body :: "rat \<Rightarrow> rat \<Rightarrow> create_body" where
  "sample_body lng lat =
     \<lparr>cb_title = Some ''Pothole on Elm street'',
      cb_description = Some ''A deep pothole in the right lane'',
      cb_category = Some ''infrastructure'', cb_priority = None,
      cb_location = Some \<lparr>li_coordinates = Some [JNum lng, JNum lat]\<rparr>,
      cb_address = Some ''Elm street 12'', cb_images = None\<rparr>"

text \<open>A run: alice reports an issue and votes for it, root resolves it.\<close>

definition resolve_body :: update_body where
  "resolve_body =
     \<lparr>ub_title = None, ub_description = None, ub_category = None, ub_priority = None,
      ub_status = Some ''resolved'', ub_assignedTo = None,
      ub_votes = Some 99, ub_votedBy = Some [1, 2, 3], ub_resolvedAt = Some 5\<rparr>"

definition sample_run :: "request list" where
  "sample_run =
     [Create 5 10 (Some alice) (sample_body 10 20),
      Vote 20 (Some alice) (Some 5),
      Update 30 (Some root) (Some 5) resolve_body]"

definition bob :: auth_user where
  "bob = \<lparr>user_id = 8, role = ''user''\<rparr>"

text \<open>The issue that the run leaves in the database.\<close>

definition resolved_issue :: issue where
  "resolved_issue =
     \<lparr>issue_id = 5, title = ''Pothole on Elm street'',
      description = ''A deep pothole in the right lane'', category = ''infrastructure'',
      status = ''resolved'', priority = ''medium'', coordinates = [10, 20],
      address = ''Elm street 12'', images = [], reportedBy = 7, assignedTo = None,
      votes = 1, votedBy = [7], resolvedAt = Some 30, createdAt = 10, updatedAt = 30\<rparr>"

definition reopen_body :: update_body where
  "reopen_body =
     \<lparr>ub_title = None, ub_description = None, ub_category = None, ub_priority = None,
      ub_status = Some ''in-progress'', ub_assignedTo = None,
      ub_votes = None, ub_votedBy = None, ub_resolvedAt = None\<rparr>"


text \<open>
  A platform for the evaluation of examples: parseFloat reads integers, no document
  matches a text search, a document is near a centre when it lies exactly there, and
  sorting keeps the order of the collection. The database holds one issue at
  [10, 20] and one at [50, 60]; the query asks for the issues within one kilometre of
  [10, 20], one to a page.
\<close>

definition test_platform :: platform where
  "test_platform =
     \<lparr>parseFloat = parseInt,
      text_search = (\<lambda>q d. False),
      geo_near = (\<lambda>c m d. case c of [Num x, Num y] \<Rightarrow> coordinates d = [x, y] | _ \<Rightarrow> False),
      sort_docs = (\<lambda>k dir ds. ds)\<rparr>"

definition two_places_db :: db where
  "two_places_db =
     \<lparr>issues = [sample_issue 5 ''pending'', (sample_issue 6 ''pending'')\<lparr>coordinates := [50, 60]\<rparr>],
      votes_coll = {}\<rparr>"

definition no_params :: search_params where
  "no_params =
     \<lparr>sp_status = None, sp_category = None, sp_priority = None, sp_sortBy = None,
      sp_sortOrder = None, sp_page = None, sp_limit = None, sp_search = None,
      sp_lat = None, sp_lng = None, sp_radius = None\<rparr>"

definition near_query :: search_params where
  "near_query =
     no_params\<lparr>sp_limit := Some ''1'', sp_lat := Some ''20'', sp_lng := Some ''10'',
               sp_radius := Some ''1''\<rparr>"

text \<open>The issue in the database after the first two requests of the run.\<close>

definition voted_issue :: issue where
  "voted_issue = resolved_issue\<lparr>status := ''pending'', resolvedAt := None, updatedAt := 20\<rparr>"


text \<open>The first two requests of the run: the issue is pending and has one vote.\<close>

definition voted_run :: "request list" where
  "voted_run =
     [Create 5 10 (Some alice) (sample_body 10 20),
      Vote 20 (Some alice) (Some 5)]"

section \<open>Consistency of a database\<close>

text \<open>The users with a vote for an issue in the Vote collection.\<close>

definition voters_of :: "oid \<Rightarrow> vote set \<Rightarrow> oid set" where
  "voters_of i vs = userId ` {v \<in> vs. issueId v = i}"

text \<open>
  An issue agrees with the Vote collection: its counter is the length of votedBy,
  votedBy has no duplicate and lists the voters of the issue, and resolvedAt is set
  exactly when the status is resolved.
\<close>

definition issue_ok :: "vote set \<Rightarrow> issue \<Rightarrow> bool" where
  "issue_ok vs d =
     (votes d = int (length (votedBy d)) \<and> distinct (votedBy d)
      \<and> set (votedBy d) = voters_of (issue_id d) vs
      \<and> ((resolvedAt d \<noteq> None) = (status d = ''resolved'')))"

definition consistent :: "db \<Rightarrow> bool" where
  "consistent s =
     (distinct (map issue_id (issues s)) \<and> list_all (issue_ok (votes_coll s)) (issues s))"

section \<open>Lookups and updates by id\<close>

lemma findById_Some_id: "findById i ds = Some d \<Longrightarrow> issue_id d = i \<and> d \<in> set ds"
  by (auto simp: findById_def find_Some_iff)

lemma findById_update:
  assumes "\<And>d. issue_id d = i \<Longrightarrow> issue_id (f d) = i"
  shows "findById i (findByIdAndUpdate i f ds) = map_option f (findById i ds)"
  using assms by (induction ds) (simp_all add: findById_def)

lemma sample_issue_fields:
  "votes (sample_issue i st) = 0" "votedBy (sample_issue i st) = []"
  "issue_id (sample_issue i st) = i" "status (sample_issue i st) = st"
  "reportedBy (sample_issue i st) = 7"
  by (simp_all add: sample_issue_def)

lemma one_issue_db_find:
  "findById 5 (issues one_issue_db) = Some (sample_issue 5 ''pending'')"
  by (simp add: findById_def one_issue_db_def sample_issue_def)

section \<open>The vote toggle\<close>

text \<open>
  Claim C1. For an issue that exists and an authenticated voter, the toggle that runs
  alone looks the pair up in the Vote collection. Without a prior vote it stores the
  pair, raises the counter of the issue by one and the voter is in votedBy afterwards;
  with a prior vote it deletes the pair, lowers the counter by one and the voter is
  out of votedBy. In both cases the reply succeeds and carries the id of the issue, the
  counter as stored after the update, and hasVoted as the membership of the voter in
  the stored votedBy.
\<close>

theorem vote_toggle_effect:
  assumes "findById i (issues s) = Some d"
  shows "case POST_vote no_race now (Some user) (Some i) s of
           (r, s') \<Rightarrow>
             (\<exists>d'. findById i (issues s') = Some d'
                \<and> (if \<lparr>userId = user_id user, issueId = i\<rparr> \<in> votes_coll s
                    then votes_coll s' = votes_coll s - {\<lparr>userId = user_id user, issueId = i\<rparr>}
                         \<and> votes d' = votes d - 1
                         \<and> set (votedBy d') = set (votedBy d) - {user_id user}
                    else votes_coll s' = insert \<lparr>userId = user_id user, issueId = i\<rparr> (votes_coll s)
                         \<and> votes d' = votes d + 1
                         \<and> set (votedBy d') = insert (user_id user) (set (votedBy d)))
                \<and> http_status r = 200 \<and> success r
                \<and> data r = Some \<lparr>vd_issueId = i, vd_votes = votes d',
                                  vd_hasVoted = (user_id user \<in> set (votedBy d')),
                                  vd_issue = d'\<rparr>)"
  using assms
  by (auto simp: POST_vote_def toggleVote_def findOne_def create_vote_def deleteOne_def
      no_race_def findById_update reply_def addToSet_def pull_def Let_def)

theorem vote_toggle_effect_witness:
  "findById 5 (issues one_issue_db) = Some (sample_issue 5 ''pending'')
   \<and> map_option vd_votes (data (fst (POST_vote no_race 20 (Some alice) (Some 5) one_issue_db)))
       = Some 1
   \<and> map_option vd_hasVoted (data (fst (POST_vote no_race 20 (Some alice) (Some 5) one_issue_db)))
       = Some True
   \<and> votes_coll (snd (POST_vote no_race 20 (Some alice) (Some 5) one_issue_db))
       = {\<lparr>userId = 7, issueId = 5\<rparr>}"
proof -
  have v: "votes_coll one_issue_db = {}" "user_id alice = 7"
    by (simp_all add: one_issue_db_def alice_def)
  show ?thesis
    using one_issue_db_find
      vote_toggle_effect [OF one_issue_db_find, where now = 20 and user = alice]
    by (auto simp: v sample_issue_fields split: prod.splits)
qed

text \<open>
  Claim C5. When another request stores the pair between the lookup and the insert of
  a toggle, the insert fails on the unique index with the duplicate key error. The
  toggle then reads the vote again, deletes the pair and returns the removed outcome;
  the route lowers the counter of the issue by one and pulls the voter from votedBy,
  and the reply is the successful one, not an error.
\<close>

theorem duplicate_key_recovered:
  assumes "findById i (issues s) = Some d"
    and "\<lparr>userId = user_id user, issueId = i\<rparr> \<notin> votes_coll s"
    and "\<lparr>userId = user_id user, issueId = i\<rparr> \<in> race (votes_coll s)"
  shows "create_vote (user_id user) i (race (votes_coll s)) = Inl DuplicateKey
     \<and> toggleVote race (user_id user) i (votes_coll s)
         = Inr (\<lparr>action = Removed, tr_vote = Some \<lparr>userId = user_id user, issueId = i\<rparr>\<rparr>,
                race (votes_coll s) - {\<lparr>userId = user_id user, issueId = i\<rparr>})
     \<and> (case POST_vote race now (Some user) (Some i) s of
           (r, s') \<Rightarrow>
             votes_coll s' = race (votes_coll s) - {\<lparr>userId = user_id user, issueId = i\<rparr>}
             \<and> (\<exists>d'. findById i (issues s') = Some d' \<and> votes d' = votes d - 1
                    \<and> user_id user \<notin> set (votedBy d')
                    \<and> data r = Some \<lparr>vd_issueId = i, vd_votes = votes d - 1,
                                      vd_hasVoted = False, vd_issue = d'\<rparr>)
             \<and> http_status r = 200 \<and> success r
             \<and> message r = ''Vote removed successfully'')"
  using assms
  by (auto simp: POST_vote_def toggleVote_def findOne_def create_vote_def deleteOne_def
      findById_update reply_def pull_def Let_def)

theorem duplicate_key_recovered_witness:
  "findById 5 (issues one_issue_db) = Some (sample_issue 5 ''pending'')
   \<and> \<lparr>userId = user_id alice, issueId = 5\<rparr> \<notin> votes_coll one_issue_db
   \<and> \<lparr>userId = user_id alice, issueId = 5\<rparr>
       \<in> insert \<lparr>userId = 7, issueId = 5\<rparr> (votes_coll one_issue_db)
   \<and> http_status (fst (POST_vote (insert \<lparr>userId = 7, issueId = 5\<rparr>) 20 (Some alice) (Some 5)
        one_issue_db)) = 200
   \<and> map_option vd_votes (data (fst (POST_vote (insert \<lparr>userId = 7, issueId = 5\<rparr>) 20
        (Some alice) (Some 5) one_issue_db))) = Some (- 1)
   \<and> votes_coll (snd (POST_vote (insert \<lparr>userId = 7, issueId = 5\<rparr>) 20 (Some alice) (Some 5)
        one_issue_db)) = {}"
proof -
  have a: "\<lparr>userId = user_id alice, issueId = 5\<rparr> \<notin> votes_coll one_issue_db"
    by (simp add: one_issue_db_def)
  have b: "\<lparr>userId = user_id alice, issueId = 5\<rparr>
             \<in> insert \<lparr>userId = 7, issueId = 5\<rparr> (votes_coll one_issue_db)"
    by (simp add: alice_def)
  have v: "votes_coll one_issue_db = {}" "user_id alice = 7"
    by (simp_all add: one_issue_db_def alice_def)
  show ?thesis
    using one_issue_db_find a b
      duplicate_key_recovered [where race = "insert \<lparr>userId = 7, issueId = 5\<rparr>"
        and user = alice and i = 5 and s = one_issue_db and now = 20,
        OF one_issue_db_find a b]
    by (auto simp: v sample_issue_fields split: prod.splits)
qed

section \<open>Creation of an issue\<close>

text \<open>
  Claim C9. A request of an authenticated user to create an issue whose coordinates
  array holds a longitude outside [-180, 180] or a latitude outside [-90, 90] is
  answered with status 400 and success false, and the database is what it was before.
  The validator of the schema rejects the same coordinates, so a document that
  carries them fails validation on a save. The coordinates [200, 45] are an instance.
\<close>

theorem create_rejects_bad_coordinates:
  assumes "cb_location body = Some loc"
    and "li_coordinates loc = Some [JNum lng, JNum lat]"
    and "lng < - 180 \<or> 180 < lng \<or> lat < - 90 \<or> 90 < lat"
  shows "http_status (fst (POST_issues newId now (Some user) body s)) = 400
     \<and> \<not> success (fst (POST_issues newId now (Some user) body s))
     \<and> snd (POST_issues newId now (Some user) body s) = s
     \<and> \<not> coordinates_validator [lng, lat]
     \<and> \<not> validate_issue (d\<lparr>coordinates := [lng, lat]\<rparr>)"
proof -
  have "\<not> coordinates_validator [lng, lat]"
    using assms(3) by (auto simp: coordinates_validator_def)
  moreover from this have "\<not> validate_issue (d\<lparr>coordinates := [lng, lat]\<rparr>)"
    by (simp add: validate_issue_def)
  moreover have "POST_issues newId now (Some user) body s
        = (reply 400 False
             ''Title, description, category, location, and address are required'' None, s)
     \<or> POST_issues newId now (Some user) body s
        = (reply 400 False
             ''Invalid coordinates. Longitude must be between -180 and 180, latitude between -90 and 90''
             None, s)"
    using assms by (simp add: POST_issues_def)
  ultimately show ?thesis
    by (auto simp: reply_def)
qed

theorem create_rejects_bad_coordinates_witness:
  "cb_location (sample_body 200 45) = Some \<lparr>li_coordinates = Some [JNum 200, JNum 45]\<rparr>
   \<and> li_coordinates \<lparr>li_coordinates = Some [JNum 200, JNum 45]\<rparr> = Some [JNum 200, JNum 45]
   \<and> ((200::rat) < - 180 \<or> 180 < (200::rat) \<or> (45::rat) < - 90 \<or> 90 < (45::rat))
   \<and> http_status (fst (POST_issues 9 30 (Some alice) (sample_body 200 45) one_issue_db)) = 400
   \<and> snd (POST_issues 9 30 (Some alice) (sample_body 200 45) one_issue_db) = one_issue_db"
proof -
  have a: "cb_location (sample_body 200 45) = Some \<lparr>li_coordinates = Some [JNum 200, JNum 45]\<rparr>"
    by (simp add: sample_body_def)
  have b: "li_coordinates \<lparr>li_coordinates = Some [JNum 200, JNum 45]\<rparr>
             = Some [JNum 200, JNum 45]"
    by simp
  have c: "(200::rat) < - 180 \<or> 180 < (200::rat) \<or> (45::rat) < - 90 \<or> 90 < (45::rat)"
    by simp
  show ?thesis
    using a b c
      create_rejects_bad_coordinates [OF a b c, where newId = 9 and now = 30 and user = alice
        and s = one_issue_db]
    by simp
qed

section \<open>The requests preserve consistency\<close>

lemma voters_of_iff: "u \<in> voters_of i vs \<longleftrightarrow> \<lparr>userId = u, issueId = i\<rparr> \<in> vs"
proof
  assume "u \<in> voters_of i vs"
  then obtain v where v: "v \<in> vs" "issueId v = i" "userId v = u"
    by (auto simp: voters_of_def)
  then have "v = \<lparr>userId = u, issueId = i\<rparr>" by (cases v) simp
  with v show "\<lparr>userId = u, issueId = i\<rparr> \<in> vs" by simp
next
  assume "\<lparr>userId = u, issueId = i\<rparr> \<in> vs"
  then have "userId \<lparr>userId = u, issueId = i\<rparr> \<in> voters_of i vs"
    unfolding voters_of_def by (intro imageI) simp
  then show "u \<in> voters_of i vs" by simp
qed

lemma voters_of_insert:
  "voters_of j (insert \<lparr>userId = u, issueId = i\<rparr> vs)
     = (if j = i then insert u (voters_of j vs) else voters_of j vs)"
  by (auto simp: voters_of_iff set_eq_iff)

lemma voters_of_delete:
  "voters_of j (vs - {\<lparr>userId = u, issueId = i\<rparr>})
     = (if j = i then voters_of j vs - {u} else voters_of j vs)"
  by (auto simp: voters_of_iff set_eq_iff)

lemma update_as_map:
  assumes "distinct (map issue_id ds)" and "\<And>d. issue_id d = i \<Longrightarrow> issue_id (f d) = i"
  shows "findByIdAndUpdate i f ds = map (\<lambda>d. if issue_id d = i then f d else d) ds"
  using assms
proof (induction ds)
  case Nil
  then show ?case by simp
next
  case (Cons d ds)
  show ?case
  proof (cases "issue_id d = i")
    case True
    with Cons.prems have "\<forall>x \<in> set ds. issue_id x \<noteq> i" by (auto simp: image_iff)
    then have "map (\<lambda>d. if issue_id d = i then f d else d) ds = ds"
      by (simp add: map_idI)
    with True show ?thesis by simp
  next
    case False
    with Cons show ?thesis by simp
  qed
qed

lemma pull_length:
  "distinct us \<Longrightarrow> u \<in> set us \<Longrightarrow> int (length (pull u us)) = int (length us) - 1"
proof (induction us)
  case Nil
  then show ?case by simp
next
  case (Cons a us)
  show ?case
  proof (cases "a = u")
    case True
    with Cons.prems have "u \<notin> set us" by simp
    then have "filter (\<lambda>x. x \<noteq> u) us = us" by (auto simp: filter_id_conv)
    with True show ?thesis by (simp add: pull_def)
  next
    case False
    with Cons show ?thesis by (simp add: pull_def)
  qed
qed

lemma pull_set: "set (pull u us) = set us - {u}"
  by (auto simp: pull_def)

lemma pull_distinct: "distinct us \<Longrightarrow> distinct (pull u us)"
  by (simp add: pull_def)

lemma issue_ok_removed:
  assumes "issue_ok vs x" and "\<lparr>userId = u, issueId = i\<rparr> \<in> vs"
  shows "issue_ok (vs - {\<lparr>userId = u, issueId = i\<rparr>})
           (if issue_id x = i
            then x\<lparr>votes := votes x - 1, votedBy := pull u (votedBy x), updatedAt := now\<rparr>
            else x)"
proof (cases "issue_id x = i")
  case False
  with assms show ?thesis by (simp add: issue_ok_def voters_of_delete)
next
  case True
  with assms have "u \<in> set (votedBy x)" by (simp add: issue_ok_def voters_of_iff)
  with assms True show ?thesis
    by (simp add: issue_ok_def voters_of_delete pull_length pull_set pull_distinct)
qed

lemma issue_ok_added:
  assumes "issue_ok vs x" and "\<lparr>userId = u, issueId = i\<rparr> \<notin> vs"
  shows "issue_ok (insert \<lparr>userId = u, issueId = i\<rparr> vs)
           (if issue_id x = i
            then x\<lparr>votes := votes x + 1, votedBy := addToSet u (votedBy x), updatedAt := now\<rparr>
            else x)"
proof (cases "issue_id x = i")
  case False
  with assms show ?thesis by (simp add: issue_ok_def voters_of_insert)
next
  case True
  with assms have "u \<notin> set (votedBy x)" by (simp add: issue_ok_def voters_of_iff)
  with assms True show ?thesis
    by (simp add: issue_ok_def voters_of_insert addToSet_def)
qed

lemma consistent_mapI:
  assumes "distinct (map issue_id ds)"
    and "\<And>x. x \<in> set ds \<Longrightarrow> issue_id (g x) = issue_id x"
    and "\<And>x. x \<in> set ds \<Longrightarrow> issue_ok vs (g x)"
  shows "consistent \<lparr>issues = map g ds, votes_coll = vs\<rparr>"
proof -
  have ids: "map (issue_id \<circ> g) ds = map issue_id ds"
    using assms(2) by (induction ds) simp_all
  from assms(1,3) show ?thesis
    by (simp add: consistent_def list_all_iff ids)
qed

lemma consistent_vote:
  assumes "consistent s"
  shows "consistent (snd (POST_vote no_race now auth idp s))"
proof (cases auth)
  case None
  with assms show ?thesis by (simp add: POST_vote_def)
next
  case (Some user)
  show ?thesis
  proof (cases idp)
    case None
    with Some assms show ?thesis by (simp add: POST_vote_def)
  next
    case i: (Some i)
    show ?thesis
    proof (cases "findById i (issues s)")
      case None
      with Some i assms show ?thesis by (simp add: POST_vote_def)
    next
      case found: (Some d)
      let ?v = "\<lparr>userId = user_id user, issueId = i\<rparr>"
      let ?add = "\<lambda>d. d\<lparr>votes := votes d + 1, votedBy := addToSet (user_id user) (votedBy d),
                          updatedAt := now\<rparr>"
      let ?del = "\<lambda>d. d\<lparr>votes := votes d - 1, votedBy := pull (user_id user) (votedBy d),
                          updatedAt := now\<rparr>"
      from assms have dist: "distinct (map issue_id (issues s))"
        and ok: "\<forall>x \<in> set (issues s). issue_ok (votes_coll s) x"
        by (simp_all add: consistent_def list_all_iff)
      show ?thesis
      proof (cases "?v \<in> votes_coll s")
        case True
        have eq: "snd (POST_vote no_race now auth idp s)
                    = \<lparr>issues = findByIdAndUpdate i ?del (issues s),
                       votes_coll = votes_coll s - {?v}\<rparr>"
          using Some i found True
          by (simp add: POST_vote_def toggleVote_def findOne_def deleteOne_def Let_def
              findById_update split: option.splits)
        have m: "findByIdAndUpdate i ?del (issues s)
                   = map (\<lambda>d. if issue_id d = i then ?del d else d) (issues s)"
          by (rule update_as_map [OF dist]) simp
        show ?thesis
          unfolding eq m
          using dist ok True
          by (intro consistent_mapI) (simp_all add: issue_ok_removed)
      next
        case False
        have eq: "snd (POST_vote no_race now auth idp s)
                    = \<lparr>issues = findByIdAndUpdate i ?add (issues s),
                       votes_coll = insert ?v (votes_coll s)\<rparr>"
          using Some i found False
          by (simp add: POST_vote_def toggleVote_def findOne_def create_vote_def no_race_def
              Let_def findById_update split: option.splits)
        have m: "findByIdAndUpdate i ?add (issues s)
                   = map (\<lambda>d. if issue_id d = i then ?add d else d) (issues s)"
          by (rule update_as_map [OF dist]) simp
        show ?thesis
          unfolding eq m
          using dist ok False
          by (intro consistent_mapI) (simp_all add: issue_ok_added)
      qed
    qed
  qed
qed


lemma pre_save_fields:
  "issue_id (pre_save m now d) = issue_id d" "votes (pre_save m now d) = votes d"
  "votedBy (pre_save m now d) = votedBy d" "status (pre_save m now d) = status d"
  by (simp_all add: pre_save_def)

lemma pre_save_resolvedAt:
  "resolvedAt (pre_save m now d)
     = (if m then (if status d = ''resolved''
                   then (case resolvedAt d of None \<Rightarrow> Some now | Some t \<Rightarrow> Some t)
                   else None)
        else resolvedAt d)"
  by (simp add: pre_save_def split: option.splits)

lemma new_issue_fields:
  "issue_id (new_issue newId now user body lng lat) = newId"
  "votes (new_issue newId now user body lng lat) = 0"
  "votedBy (new_issue newId now user body lng lat) = []"
  "status (new_issue newId now user body lng lat) = ''pending''"
  "resolvedAt (new_issue newId now user body lng lat) = None"
  by (simp_all add: new_issue_def)

lemma create_cases0:
  "snd (POST_issues newId now auth body s) = s
   \<or> (\<exists>user lng lat. snd (POST_issues newId now auth body s)
          = s\<lparr>issues := issues s @ [pre_save True now (new_issue newId now user body lng lat)]\<rparr>)"
  by (auto simp: POST_issues_def split: option.splits prod.splits)

lemma consistent_create:
  assumes "consistent s" and "fresh_id newId s"
  shows "consistent (snd (POST_issues newId now auth body s))"
proof -
  from create_cases0 [of newId now auth body s]
  show ?thesis
  proof (elim disjE exE)
    assume "snd (POST_issues newId now auth body s) = s"
    with assms show ?thesis by simp
  next
    fix user lng lat
    let ?d = "pre_save True now (new_issue newId now user body lng lat)"
    assume eq: "snd (POST_issues newId now auth body s) = s\<lparr>issues := issues s @ [?d]\<rparr>"
    from assms(2) have "voters_of newId (votes_coll s) = {}"
      by (auto simp: fresh_id_def voters_of_def)
    then have "issue_ok (votes_coll s) ?d"
      by (simp add: issue_ok_def pre_save_fields pre_save_resolvedAt new_issue_fields)
    with assms show ?thesis
      unfolding eq
      by (simp add: consistent_def fresh_id_def pre_save_fields new_issue_fields)
  qed
qed

lemma apply_updates_fields:
  "issue_id (apply_updates ow ad body d) = issue_id d"
  "votes (apply_updates ow ad body d) = votes d"
  "votedBy (apply_updates ow ad body d) = votedBy d"
  "resolvedAt (apply_updates ow ad body d) = resolvedAt d"
  by (simp_all add: apply_updates_def Let_def split: option.splits)

lemma timestamps_fields:
  "issue_id (timestamps now old d) = issue_id d" "votes (timestamps now old d) = votes d"
  "votedBy (timestamps now old d) = votedBy d" "status (timestamps now old d) = status d"
  "resolvedAt (timestamps now old d) = resolvedAt d"
  by (simp_all add: timestamps_def)

lemma save_issue_cases:
  assumes "save_issue now old new ds = Inr (saved, ds')"
  shows "ds' = findByIdAndUpdate (issue_id old) (\<lambda>_. saved) ds
     \<and> issue_id saved = issue_id new \<and> votes saved = votes new \<and> votedBy saved = votedBy new
     \<and> status saved = status new
     \<and> resolvedAt saved
         = (if status new \<noteq> status old
            then (if status new = ''resolved''
                  then (case resolvedAt new of None \<Rightarrow> Some now | Some t \<Rightarrow> Some t)
                  else None)
            else resolvedAt new)"
proof -
  from assms have s: "saved = timestamps now old (pre_save (status new \<noteq> status old) now new)"
    and d: "ds' = findByIdAndUpdate (issue_id old) (\<lambda>_. saved) ds"
    by (auto simp: save_issue_def Let_def split: if_splits)
  show ?thesis
    unfolding s using d s
    by (simp add: timestamps_fields pre_save_fields pre_save_resolvedAt)
qed


lemma update_cases0:
  "snd (PUT_issue now auth idp body s) = s
   \<or> (\<exists>i old ow ad saved ds'. idp = Some i \<and> findById i (issues s) = Some old
          \<and> save_issue now old (apply_updates ow ad body old) (issues s) = Inr (saved, ds')
          \<and> snd (PUT_issue now auth idp body s) = s\<lparr>issues := ds'\<rparr>)"
proof (cases auth)
  case None
  then show ?thesis by (simp add: PUT_issue_def)
next
  case (Some user)
  show ?thesis
  proof (cases idp)
    case None
    with Some show ?thesis by (simp add: PUT_issue_def)
  next
    case i: (Some i)
    show ?thesis
    proof (cases "findById i (issues s)")
      case None
      with Some i show ?thesis by (simp add: PUT_issue_def)
    next
      case found: (Some old)
      define ow where "ow = (reportedBy old = user_id user)"
      define ad where "ad = (role user = ''admin'')"
      define new where "new = apply_updates ow ad body old"
      have put: "PUT_issue now auth idp body s
          = (if \<not> ow \<and> \<not> ad then (reply 403 False ''Permission denied'' None, s)
             else if (truthy_str (ub_status body)
                        \<or> (case ub_assignedTo body of Some (Some a) \<Rightarrow> True | _ \<Rightarrow> False))
                     \<and> \<not> ad
             then (reply 403 False ''Only admins can change issue status or assignment'' None, s)
             else (case save_issue now old new (issues s) of
                     Inl error \<Rightarrow> (reply 400 False ''Validation error'' None, s)
                   | Inr (saved, ds') \<Rightarrow>
                       (reply 200 True ''Issue updated successfully'' (Some saved),
                        s\<lparr>issues := ds'\<rparr>)))"
        unfolding PUT_issue_def Some i new_def ow_def ad_def by (simp add: found Let_def)
      show ?thesis
      proof (cases "save_issue now old new (issues s)")
        case (Inl e)
        then show ?thesis unfolding put by simp
      next
        case (Inr p)
        obtain saved ds' where p: "p = (saved, ds')" by (cases p)
        show ?thesis
        proof (cases "snd (PUT_issue now auth idp body s) = s")
          case True
          then show ?thesis by simp
        next
          case False
          with Inr p have "snd (PUT_issue now auth idp body s) = s\<lparr>issues := ds'\<rparr>"
            unfolding put by (simp split: if_splits)
          with i found Inr p show ?thesis unfolding new_def by blast
        qed
      qed
    qed
  qed
qed

lemma update_cases:
  "snd (PUT_issue now auth idp body s) = s
   \<or> (\<exists>i old new. idp = Some i \<and> findById i (issues s) = Some old
          \<and> snd (PUT_issue now auth idp body s)
              = s\<lparr>issues := findByIdAndUpdate i (\<lambda>_. new) (issues s)\<rparr>
          \<and> issue_id new = i \<and> votes new = votes old \<and> votedBy new = votedBy old
          \<and> resolvedAt new
              = (if status new \<noteq> status old
                 then (if status new = ''resolved''
                       then (case resolvedAt old of None \<Rightarrow> Some now | Some t \<Rightarrow> Some t)
                       else None)
                 else resolvedAt old))"
proof -
  from update_cases0 [of now auth idp body s]
  show ?thesis
  proof (elim disjE exE conjE)
    assume "snd (PUT_issue now auth idp body s) = s"
    then show ?thesis by simp
  next
    fix i old ow ad saved ds'
    assume a: "idp = Some i" "findById i (issues s) = Some old"
      "save_issue now old (apply_updates ow ad body old) (issues s) = Inr (saved, ds')"
      "snd (PUT_issue now auth idp body s) = s\<lparr>issues := ds'\<rparr>"
    from a(2) have id: "issue_id old = i" by (simp add: findById_Some_id)
    from save_issue_cases [OF a(3)] id a
    have "idp = Some i \<and> findById i (issues s) = Some old
          \<and> snd (PUT_issue now auth idp body s)
              = s\<lparr>issues := findByIdAndUpdate i (\<lambda>_. saved) (issues s)\<rparr>
          \<and> issue_id saved = i \<and> votes saved = votes old \<and> votedBy saved = votedBy old
          \<and> resolvedAt saved
              = (if status saved \<noteq> status old
                 then (if status saved = ''resolved''
                       then (case resolvedAt old of None \<Rightarrow> Some now | Some t \<Rightarrow> Some t)
                       else None)
                 else resolvedAt old)"
      by (simp add: apply_updates_fields)
    then show ?thesis by blast
  qed
qed

lemma consistent_update:
  assumes "consistent s"
  shows "consistent (snd (PUT_issue now auth idp body s))"
proof -
  from update_cases [of now auth idp body s]
  show ?thesis
  proof (elim disjE exE conjE)
    assume "snd (PUT_issue now auth idp body s) = s"
    with assms show ?thesis by simp
  next
    fix i old new
    assume a: "findById i (issues s) = Some old"
      "snd (PUT_issue now auth idp body s)
         = s\<lparr>issues := findByIdAndUpdate i (\<lambda>_. new) (issues s)\<rparr>"
      "issue_id new = i" "votes new = votes old" "votedBy new = votedBy old"
      "resolvedAt new
         = (if status new \<noteq> status old
            then (if status new = ''resolved''
                  then (case resolvedAt old of None \<Rightarrow> Some now | Some t \<Rightarrow> Some t)
                  else None)
            else resolvedAt old)"
    from assms have dist: "distinct (map issue_id (issues s))"
      and ok: "\<forall>x \<in> set (issues s). issue_ok (votes_coll s) x"
      by (simp_all add: consistent_def list_all_iff)
    from a(1) have old: "issue_id old = i" "old \<in> set (issues s)"
      by (simp_all add: findById_Some_id)
    with ok have okold: "issue_ok (votes_coll s) old" by blast
    have oknew: "issue_ok (votes_coll s) new"
      using okold a(3-6) old(1)
      by (auto simp: issue_ok_def split: option.splits if_splits)
    have m: "findByIdAndUpdate i (\<lambda>_. new) (issues s)
               = map (\<lambda>d. if issue_id d = i then new else d) (issues s)"
      by (rule update_as_map [OF dist]) (simp add: a(3))
    have c: "consistent \<lparr>issues = map (\<lambda>d. if issue_id d = i then new else d) (issues s),
                         votes_coll = votes_coll s\<rparr>"
      using dist ok oknew a(3)
      by (intro consistent_mapI) simp_all
    have e: "s\<lparr>issues := map (\<lambda>d. if issue_id d = i then new else d) (issues s)\<rparr>
        = \<lparr>issues = map (\<lambda>d. if issue_id d = i then new else d) (issues s),
           votes_coll = votes_coll s\<rparr>"
      by (cases s) simp
    show ?thesis
      unfolding a(2) m e by (rule c)
  qed
qed

lemma delete_sub:
  "set (findByIdAndDelete i ds) \<subseteq> set ds
   \<and> (distinct (map issue_id ds) \<longrightarrow> distinct (map issue_id (findByIdAndDelete i ds)))"
  by (induction ds) auto

lemma consistent_delete:
  assumes "consistent s"
  shows "consistent (snd (DELETE_issue auth idp s))"
proof -
  have "snd (DELETE_issue auth idp s) = s
        \<or> (\<exists>i. snd (DELETE_issue auth idp s) = s\<lparr>issues := findByIdAndDelete i (issues s)\<rparr>)"
    by (auto simp: DELETE_issue_def Let_def split: option.splits)
  then show ?thesis
  proof (elim disjE exE)
    assume "snd (DELETE_issue auth idp s) = s"
    with assms show ?thesis by simp
  next
    fix i
    assume eq: "snd (DELETE_issue auth idp s) = s\<lparr>issues := findByIdAndDelete i (issues s)\<rparr>"
    from assms delete_sub [of i "issues s"] show ?thesis
      unfolding eq by (auto simp: consistent_def list_all_iff)
  qed
qed

lemma consistent_step:
  assumes "consistent s" and "ids_fresh (r # rs) s"
  shows "consistent (step r s)"
  using assms
  by (cases r) (simp_all add: consistent_vote consistent_create consistent_update
      consistent_delete)

lemma ids_fresh_tail: "ids_fresh (r # rs) s \<Longrightarrow> ids_fresh rs (step r s)"
  by (cases r) simp_all

lemma consistent_run:
  assumes "consistent s" and "ids_fresh rs s"
  shows "consistent (run rs s)"
  using assms
proof (induction rs arbitrary: s)
  case Nil
  then show ?case by simp
next
  case (Cons r rs)
  from Cons.prems have "consistent (step r s)" by (rule consistent_step)
  moreover from Cons.prems(2) have "ids_fresh rs (step r s)" by (rule ids_fresh_tail)
  ultimately show ?case using Cons.IH by simp
qed

lemma consistent_empty: "consistent empty_db"
  by (simp add: consistent_def empty_db_def)

section \<open>Properties of the runs\<close>

lemma findById_update_other:
  assumes "\<And>d. issue_id d = i \<Longrightarrow> issue_id (f d) = i" and "j \<noteq> i"
  shows "findById j (findByIdAndUpdate i f ds) = findById j ds"
  using assms by (induction ds) (auto simp: findById_def)

lemma consistent_reached: "ids_fresh rs empty_db \<Longrightarrow> consistent (run rs empty_db)"
  by (rule consistent_run [OF consistent_empty])

lemma consistent_issue:
  "consistent s \<Longrightarrow> d \<in> set (issues s) \<Longrightarrow> issue_ok (votes_coll s) d"
  by (simp add: consistent_def list_all_iff)

lemma vote_state:
  assumes "findById i (issues s) = Some d"
  shows "snd (POST_vote no_race now (Some user) (Some i) s)
     = (if \<lparr>userId = user_id user, issueId = i\<rparr> \<in> votes_coll s
        then \<lparr>issues = findByIdAndUpdate i
                 (\<lambda>d. d\<lparr>votes := votes d - 1, votedBy := pull (user_id user) (votedBy d),
                         updatedAt := now\<rparr>) (issues s),
              votes_coll = votes_coll s - {\<lparr>userId = user_id user, issueId = i\<rparr>}\<rparr>
        else \<lparr>issues = findByIdAndUpdate i
                 (\<lambda>d. d\<lparr>votes := votes d + 1, votedBy := addToSet (user_id user) (votedBy d),
                         updatedAt := now\<rparr>) (issues s),
              votes_coll = insert \<lparr>userId = user_id user, issueId = i\<rparr> (votes_coll s)\<rparr>)"
  using assms
  by (simp add: POST_vote_def toggleVote_def findOne_def create_vote_def deleteOne_def
      no_race_def findById_update Let_def)

text \<open>
  Claim C2. In a database that the requests have produced, two toggles of the same
  voter on the same existing issue, one right after the other, leave the issue with
  the counter and the set of voters in votedBy it had before, and leave the Vote
  collection as it was; in particular the pair is not stored afterwards when it was
  not stored before.
\<close>

theorem double_toggle_restores:
  assumes "ids_fresh rs empty_db" and "findById i (issues (run rs empty_db)) = Some d"
  shows "let s = run rs empty_db;
             s1 = snd (POST_vote no_race ta (Some user) (Some i) s);
             s2 = snd (POST_vote no_race tb (Some user) (Some i) s1)
         in (\<exists>d2. findById i (issues s2) = Some d2 \<and> votes d2 = votes d
                 \<and> set (votedBy d2) = set (votedBy d))
            \<and> votes_coll s2 = votes_coll s
            \<and> (\<lparr>userId = user_id user, issueId = i\<rparr> \<notin> votes_coll s
                 \<longrightarrow> \<lparr>userId = user_id user, issueId = i\<rparr> \<notin> votes_coll s2)"
proof -
  define s where "s = run rs empty_db"
  let ?v = "\<lparr>userId = user_id user, issueId = i\<rparr>"
  let ?u = "user_id user"
  from assms have d: "findById i (issues s) = Some d" by (simp add: s_def)
  then have di: "issue_id d = i" "d \<in> set (issues s)" by (simp_all add: findById_Some_id)
  from assms(1) have "consistent s" unfolding s_def by (rule consistent_reached)
  with di have "issue_ok (votes_coll s) d" by (simp add: consistent_issue)
  with di have mem: "?u \<in> set (votedBy d) \<longleftrightarrow> ?v \<in> votes_coll s"
    by (simp add: issue_ok_def voters_of_iff)
  define s1 where "s1 = snd (POST_vote no_race ta (Some user) (Some i) s)"
  define s2 where "s2 = snd (POST_vote no_race tb (Some user) (Some i) s1)"
  have "(\<exists>d2. findById i (issues s2) = Some d2 \<and> votes d2 = votes d
                 \<and> set (votedBy d2) = set (votedBy d))
            \<and> votes_coll s2 = votes_coll s"
  proof (cases "?v \<in> votes_coll s")
    case True
    let ?d1 = "d\<lparr>votes := votes d - 1, votedBy := pull ?u (votedBy d), updatedAt := ta\<rparr>"
    from True have s1: "findById i (issues s1) = Some ?d1" "votes_coll s1 = votes_coll s - {?v}"
      unfolding s1_def vote_state [OF d] by (simp_all add: findById_update d)
    let ?d2 = "?d1\<lparr>votes := votes ?d1 + 1, votedBy := addToSet ?u (votedBy ?d1), updatedAt := tb\<rparr>"
    have s2: "findById i (issues s2) = Some ?d2" "votes_coll s2 = insert ?v (votes_coll s1)"
      unfolding s2_def vote_state [OF s1(1)] using s1(2)
      by (simp_all add: findById_update s1(1))
    from True mem have "?u \<in> set (votedBy d)" by simp
    then have "set (votedBy ?d2) = set (votedBy d)"
      by (auto simp: addToSet_def pull_def)
    moreover have "votes ?d2 = votes d" by simp
    moreover from True s1(2) s2(2) have "votes_coll s2 = votes_coll s" by auto
    ultimately show ?thesis using s2(1) by blast
  next
    case False
    let ?d1 = "d\<lparr>votes := votes d + 1, votedBy := addToSet ?u (votedBy d), updatedAt := ta\<rparr>"
    from False have s1: "findById i (issues s1) = Some ?d1" "votes_coll s1 = insert ?v (votes_coll s)"
      unfolding s1_def vote_state [OF d] by (simp_all add: findById_update d)
    let ?d2 = "?d1\<lparr>votes := votes ?d1 - 1, votedBy := pull ?u (votedBy ?d1), updatedAt := tb\<rparr>"
    have s2: "findById i (issues s2) = Some ?d2" "votes_coll s2 = votes_coll s1 - {?v}"
      unfolding s2_def vote_state [OF s1(1)] using s1(2)
      by (simp_all add: findById_update s1(1))
    from False mem have "?u \<notin> set (votedBy d)" by simp
    then have "set (votedBy ?d2) = set (votedBy d)"
      by (auto simp: addToSet_def pull_def)
    moreover have "votes ?d2 = votes d" by simp
    moreover from False s1(2) s2(2) have "votes_coll s2 = votes_coll s" by auto
    ultimately show ?thesis using s2(1) by blast
  qed
  then show ?thesis
    unfolding Let_def s_def [symmetric] s1_def [symmetric] s2_def [symmetric] by simp
qed

theorem double_toggle_restores_witness:
  "ids_fresh sample_run empty_db
   \<and> findById 5 (issues (run sample_run empty_db)) = Some resolved_issue
   \<and> \<lparr>userId = user_id bob, issueId = 5\<rparr> \<notin> votes_coll (run sample_run empty_db)
   \<and> (let s = run sample_run empty_db;
           s1 = snd (POST_vote no_race 40 (Some bob) (Some 5) s);
           s2 = snd (POST_vote no_race 50 (Some bob) (Some 5) s1)
       in (\<exists>d2. findById 5 (issues s2) = Some d2 \<and> votes d2 = 1 \<and> set (votedBy d2) = {7})
          \<and> votes_coll s2 = votes_coll s
          \<and> \<lparr>userId = user_id bob, issueId = 5\<rparr> \<notin> votes_coll s2)"
proof -
  have a: "ids_fresh sample_run empty_db" by code_simp
  have b: "findById 5 (issues (run sample_run empty_db)) = Some resolved_issue" by code_simp
  have c: "\<lparr>userId = user_id bob, issueId = 5\<rparr> \<notin> votes_coll (run sample_run empty_db)"
    by code_simp
  have v: "votes resolved_issue = 1" "set (votedBy resolved_issue) = {7}"
    by (simp_all add: resolved_issue_def)
  from double_toggle_restores [OF a b, where user = bob and ta = 40 and tb = 50]
  have "let s = run sample_run empty_db;
            s1 = snd (POST_vote no_race 40 (Some bob) (Some 5) s);
            s2 = snd (POST_vote no_race 50 (Some bob) (Some 5) s1)
        in (\<exists>d2. findById 5 (issues s2) = Some d2 \<and> votes d2 = 1 \<and> set (votedBy d2) = {7})
           \<and> votes_coll s2 = votes_coll s
           \<and> \<lparr>userId = user_id bob, issueId = 5\<rparr> \<notin> votes_coll s2"
    unfolding Let_def v using c by blast
  with a b c show ?thesis by blast
qed




text \<open>
  Claim C4. After any sequence of requests, every stored issue has resolvedAt set
  exactly when its status is resolved. An update that takes an issue from another
  status into resolved stamps resolvedAt with the time of the update, and an update
  that takes it out of resolved clears resolvedAt.
\<close>

theorem resolvedAt_iff_resolved:
  assumes "ids_fresh rs empty_db"
  shows "(\<forall>d \<in> set (issues (run rs empty_db)). (resolvedAt d \<noteq> None) = (status d = ''resolved''))
     \<and> (\<forall>old new.
           findById i (issues (run rs empty_db)) = Some old
           \<longrightarrow> findById i (issues (snd (PUT_issue now auth idp body (run rs empty_db)))) = Some new
           \<longrightarrow> (status old \<noteq> ''resolved'' \<and> status new = ''resolved''
                  \<longrightarrow> resolvedAt new = Some now)
               \<and> (status old = ''resolved'' \<and> status new \<noteq> ''resolved''
                  \<longrightarrow> resolvedAt new = None))"
proof (rule conjI)
  show "\<forall>d \<in> set (issues (run rs empty_db)). (resolvedAt d \<noteq> None) = (status d = ''resolved'')"
  proof
    fix d
    assume "d \<in> set (issues (run rs empty_db))"
    with assms have "issue_ok (votes_coll (run rs empty_db)) d"
      by (simp add: consistent_reached consistent_issue)
    then show "(resolvedAt d \<noteq> None) = (status d = ''resolved'')"
      by (simp add: issue_ok_def)
  qed
next
  show "\<forall>old new.
           findById i (issues (run rs empty_db)) = Some old
           \<longrightarrow> findById i (issues (snd (PUT_issue now auth idp body (run rs empty_db)))) = Some new
           \<longrightarrow> (status old \<noteq> ''resolved'' \<and> status new = ''resolved''
                  \<longrightarrow> resolvedAt new = Some now)
               \<and> (status old = ''resolved'' \<and> status new \<noteq> ''resolved''
                  \<longrightarrow> resolvedAt new = None)"
  proof (intro allI impI)
  fix old new
  define s where "s = run rs empty_db"
  assume "findById i (issues (run rs empty_db)) = Some old"
    and "findById i (issues (snd (PUT_issue now auth idp body (run rs empty_db)))) = Some new"
  then have old: "findById i (issues s) = Some old"
    and new: "findById i (issues (snd (PUT_issue now auth idp body s))) = Some new"
    by (simp_all add: s_def)
  from assms have "consistent s" unfolding s_def by (rule consistent_reached)
  with old have "issue_ok (votes_coll s) old"
    by (simp add: findById_Some_id consistent_issue)
  then have inv: "(resolvedAt old \<noteq> None) = (status old = ''resolved'')"
    by (simp add: issue_ok_def)
  show "(status old \<noteq> ''resolved'' \<and> status new = ''resolved'' \<longrightarrow> resolvedAt new = Some now)
        \<and> (status old = ''resolved'' \<and> status new \<noteq> ''resolved'' \<longrightarrow> resolvedAt new = None)"
    using update_cases [of now auth idp body s]
  proof (elim disjE exE conjE)
    assume "snd (PUT_issue now auth idp body s) = s"
    with old new have "new = old" by simp
    then show ?thesis by simp
  next
    fix j old' new'
    assume a: "findById j (issues s) = Some old'"
      "snd (PUT_issue now auth idp body s)
         = s\<lparr>issues := findByIdAndUpdate j (\<lambda>_. new') (issues s)\<rparr>"
      "issue_id new' = j"
      "resolvedAt new'
         = (if status new' \<noteq> status old'
            then (if status new' = ''resolved''
                  then (case resolvedAt old' of None \<Rightarrow> Some now | Some t \<Rightarrow> Some t)
                  else None)
            else resolvedAt old')"
    show ?thesis
    proof (cases "j = i")
      case True
      with a(1) old have "old' = old" by simp
      moreover from True a(2,3) new old have "new' = new"
        by (simp add: findById_update)
      ultimately show ?thesis using a(4) inv by (auto split: option.splits)
    next
      case False
      with a(2,3) new old have "new = old"
        by (simp add: findById_update_other)
      then show ?thesis by simp
    qed
  qed
  qed
qed

theorem resolvedAt_iff_resolved_witness:
  "ids_fresh sample_run empty_db
   \<and> findById 5 (issues (run sample_run empty_db)) = Some resolved_issue
   \<and> status resolved_issue = ''resolved'' \<and> resolvedAt resolved_issue = Some 30
   \<and> (\<exists>new. findById 5 (issues (snd (PUT_issue 60 (Some root) (Some 5) reopen_body
                  (run sample_run empty_db)))) = Some new
          \<and> status new = ''in-progress'' \<and> resolvedAt new = None)"
proof -
  have a: "ids_fresh sample_run empty_db" by code_simp
  have b: "findById 5 (issues (run sample_run empty_db)) = Some resolved_issue" by code_simp
  have c: "findById 5 (issues (snd (PUT_issue 60 (Some root) (Some 5) reopen_body
             (run sample_run empty_db))))
       = Some (resolved_issue\<lparr>status := ''in-progress'', resolvedAt := None, updatedAt := 60\<rparr>)"
    by code_simp
  have v: "status resolved_issue = ''resolved''" "resolvedAt resolved_issue = Some 30"
    "status (resolved_issue\<lparr>status := ''in-progress'', resolvedAt := None, updatedAt := 60\<rparr>)
       = ''in-progress''"
    "status (resolved_issue\<lparr>status := ''in-progress'', resolvedAt := None, updatedAt := 60\<rparr>)
       \<noteq> ''resolved''"
    by (simp_all add: resolved_issue_def)
  from resolvedAt_iff_resolved [OF a, where i = 5 and now = 60 and auth = "Some root"
        and idp = "Some 5" and body = reopen_body] b c v
  have "resolvedAt (resolved_issue\<lparr>status := ''in-progress'', resolvedAt := None,
          updatedAt := 60\<rparr>) = None"
    by blast
  with a b c v show ?thesis by blast
qed

section \<open>The resolution rate\<close>










text \<open>
  The quotient and the product are doubles. For 23 resolved issues of 40 the product is
  the double just below 57.5, and Math.round gives 57.
\<close>

lemma rate_of_a_tie: "Math_round (num_mul (num_div (Num 23) (Num 40)) (Num 100)) = Num 57"
  by code_simp




section \<open>The list of issues\<close>







text \<open>
  Claim C6, at a query with a location filter. Of the two stored issues one lies
  within the radius, so the filter yields one item, and the page of the reply holds
  that one item. The count query of the handler leaves the location filter out and
  counts both issues: the metadata report two items and two pages, and a next page
  that does not exist.
\<close>

theorem count_ignores_location:
  "length (filter (find_query test_platform
                     (validate_pagination (parse_filters test_platform near_query)))
             (issues two_places_db)) = 1
   \<and> map_option (\<lambda>pg. map issue_id (pg_data pg))
        (data (GET_issues test_platform near_query two_places_db)) = Some [5]
   \<and> map_option pg_meta (data (GET_issues test_platform near_query two_places_db))
       = Some \<lparr>currentPage = Num 1, totalPages = Num 2, totalItems = Num 2,
                itemsPerPage = Num 1, hasNextPage = True, hasPrevPage = False\<rparr>"
  by code_simp

section \<open>The system-managed fields in an update\<close>

lemma apply_updates_payload:
  "apply_updates ow ad (body\<lparr>ub_votes := v, ub_votedBy := vb, ub_resolvedAt := ra\<rparr>) d
     = apply_updates ow ad body d"
  unfolding apply_updates_def by (simp cong: if_cong option.case_cong)

lemma PUT_issue_payload:
  "PUT_issue now auth idp (body\<lparr>ub_votes := v, ub_votedBy := vb, ub_resolvedAt := ra\<rparr>) s
     = PUT_issue now auth idp body s"
proof (cases auth)
  case None
  then show ?thesis by (simp add: PUT_issue_def)
next
  case (Some user)
  show ?thesis
  proof (cases idp)
    case None
    with Some show ?thesis by (simp add: PUT_issue_def)
  next
    case i: (Some i)
    show ?thesis
    proof (cases "findById i (issues s)")
      case None
      with Some i show ?thesis by (simp add: PUT_issue_def)
    next
      case found: (Some d)
      with Some i show ?thesis
        by (simp add: PUT_issue_def apply_updates_payload Let_def cong: if_cong)
    qed
  qed
qed

text \<open>
  Claim C10, as the code has it. An update never writes the values of votes, votedBy
  and resolvedAt of its payload: the reply and the database are the same whatever the
  payload holds in these fields. After the update every issue has the votes and the
  votedBy it had before. Its resolvedAt is the one it had before as long as its status
  is the same; when the update changes the status, resolvedAt is set by the store: to
  the time of the update (or the earlier stamp, if one is left) on a change to
  resolved, and to nothing on a change to another status.
\<close>

theorem system_fields_not_writable:
  assumes "findById j (issues s) = Some old"
  shows "PUT_issue now auth idp (body\<lparr>ub_votes := v, ub_votedBy := vb, ub_resolvedAt := ra\<rparr>) s
           = PUT_issue now auth idp body s
     \<and> (\<exists>new. findById j (issues (snd (PUT_issue now auth idp body s))) = Some new
            \<and> votes new = votes old \<and> votedBy new = votedBy old
            \<and> resolvedAt new
                = (if status new = status old then resolvedAt old
                   else if status new = ''resolved''
                   then (case resolvedAt old of None \<Rightarrow> Some now | Some t \<Rightarrow> Some t)
                   else None))"
proof (rule conjI)
  show "PUT_issue now auth idp (body\<lparr>ub_votes := v, ub_votedBy := vb, ub_resolvedAt := ra\<rparr>) s
           = PUT_issue now auth idp body s"
    by (rule PUT_issue_payload)
next
  from update_cases [of now auth idp body s]
  show "\<exists>new. findById j (issues (snd (PUT_issue now auth idp body s))) = Some new
            \<and> votes new = votes old \<and> votedBy new = votedBy old
            \<and> resolvedAt new
                = (if status new = status old then resolvedAt old
                   else if status new = ''resolved''
                   then (case resolvedAt old of None \<Rightarrow> Some now | Some t \<Rightarrow> Some t)
                   else None)"
  proof (elim disjE exE conjE)
    assume "snd (PUT_issue now auth idp body s) = s"
    with assms show ?thesis by simp
  next
    fix i old' new'
    assume a: "findById i (issues s) = Some old'"
      "snd (PUT_issue now auth idp body s)
         = s\<lparr>issues := findByIdAndUpdate i (\<lambda>_. new') (issues s)\<rparr>"
      "issue_id new' = i" "votes new' = votes old'" "votedBy new' = votedBy old'"
      "resolvedAt new'
         = (if status new' \<noteq> status old'
            then (if status new' = ''resolved''
                  then (case resolvedAt old' of None \<Rightarrow> Some now | Some t \<Rightarrow> Some t)
                  else None)
            else resolvedAt old')"
    show ?thesis
    proof (cases "j = i")
      case True
      with a(1) assms have o: "old' = old" by simp
      from True a(2,3) assms
      have "findById j (issues (snd (PUT_issue now auth idp body s))) = Some new'"
        by (simp add: findById_update)
      with a(4-6) o show ?thesis by simp
    next
      case False
      with a(2,3) assms
      have "findById j (issues (snd (PUT_issue now auth idp body s))) = Some old"
        by (simp add: findById_update_other)
      then show ?thesis by simp
    qed
  qed
qed

theorem system_fields_not_writable_witness:
  "findById 5 (issues (run voted_run empty_db)) = Some voted_issue
   \<and> votes voted_issue = 1 \<and> votedBy voted_issue = [7]
   \<and> ub_votes resolve_body = Some 99 \<and> ub_votedBy resolve_body = Some [1, 2, 3]
   \<and> (\<exists>new. findById 5 (issues (snd (PUT_issue 30 (Some root) (Some 5) resolve_body
                  (run voted_run empty_db)))) = Some new
          \<and> votes new = 1 \<and> votedBy new = [7])"
proof -
  have a: "findById 5 (issues (run voted_run empty_db)) = Some voted_issue" by code_simp
  have v: "votes voted_issue = 1" "votedBy voted_issue = [7]"
    "ub_votes resolve_body = Some 99" "ub_votedBy resolve_body = Some [1, 2, 3]"
    by (simp_all add: voted_issue_def resolved_issue_def resolve_body_def)
  from system_fields_not_writable [OF a, where now = 30 and auth = "Some root"
        and idp = "Some 5" and body = resolve_body]
  have "\<exists>new. findById 5 (issues (snd (PUT_issue 30 (Some root) (Some 5) resolve_body
                  (run voted_run empty_db)))) = Some new
          \<and> votes new = 1 \<and> votedBy new = [7]"
    unfolding v by blast
  with a v show ?thesis by blast
qed

text \<open>
  Claim C10 as stated fails for resolvedAt. The issue is pending and has no
  resolvedAt; an administrator sends a payload with the status resolved (and with
  values for votes, votedBy and resolvedAt); afterwards resolvedAt is the time of the
  update, not the value it held before.
\<close>

theorem payload_status_changes_resolvedAt:
  "map_option resolvedAt (findById 5 (issues (run voted_run empty_db))) = Some None
   \<and> ub_resolvedAt resolve_body = Some 5
   \<and> map_option resolvedAt
        (findById 5 (issues (snd (PUT_issue 30 (Some root) (Some 5) resolve_body
           (run voted_run empty_db))))) = Some (Some 30)"
  by code_simp

end
